theory Spec2Isabelle
  imports Complex_Main "HOL-Library.AList" "HOL-Library.Sublist"
begin

section \<open>Values, documents and exceptions\<close>

text \<open>
  The agent (\<^verbatim>\<open>src/api/agent.py\<close>) moves Python values between three places: the
  forum listing, the JSON bodies of HTTP requests and responses, and the documents of one
  collection of the document store. One datatype covers them all. \<open>VTime t\<close> is a timestamp
  that the store assigned at server time \<open>t\<close>; \<open>SERVER_TIMESTAMP\<close> is the sentinel
  \<^verbatim>\<open>firestore.SERVER_TIMESTAMP\<close> that a client writes in its place.
\<close>

datatype fsvalue =
    VNull
  | VBool bool
  | VInt int
  | VFloat real
  | VStr string
  | VList "fsvalue list"
  | VMap "(string \<times> fsvalue) list"
  | VTime nat
  | SERVER_TIMESTAMP

text \<open>
  A Python \<^verbatim>\<open>dict\<close> with string keys is an association list in insertion order, read
  with \<open>map_of\<close> and written with \<open>AList.update\<close> (replace in place, or append).
\<close>

type_synonym document = "(string \<times> fsvalue) list"

text \<open>The exceptions that reach an \<^verbatim>\<open>except Exception\<close> clause, and \<^verbatim>\<open>str(e)\<close>.\<close>

datatype exn =
    KeyError string
  | TypeError string
  | NotFound string
  | ExternalError string

fun str_exn :: "exn \<Rightarrow> string" where
  "str_exn (KeyError k) = [CHR 0x27] @ k @ [CHR 0x27]"
| "str_exn (TypeError m) = m"
| "str_exn (NotFound m) = m"
| "str_exn (ExternalError m) = m"

text \<open>Python truthiness of an optional string (\<^verbatim>\<open>None\<close> and \<^verbatim>\<open>""\<close> are falsy).\<close>

fun truthy :: "string option \<Rightarrow> bool" where
  "truthy None = False"
| "truthy (Some s) = (s \<noteq> [])"

section \<open>The workflow statuses\<close>

datatype PostStatus = NEW | ANALYSIS_PENDING | APPROVED | REJECTED | DEPLOYED

fun status_value :: "PostStatus \<Rightarrow> string" where
  "status_value NEW = ''New''"
| "status_value ANALYSIS_PENDING = ''AnalysisPending''"
| "status_value APPROVED = ''Approved''"
| "status_value REJECTED = ''Rejected''"
| "status_value DEPLOYED = ''Deployed''"

text \<open>Iterating over the enum class yields its members in definition order.\<close>

definition PostStatus_members :: "PostStatus list" where
  "PostStatus_members = [NEW, ANALYSIS_PENDING, APPROVED, REJECTED, DEPLOYED]"

section \<open>The document store\<close>

text \<open>
  The store holds the documents of the single collection
  \<^verbatim>\<open>artifacts/{APP_ID}/public/data/reddit_posts\<close>, keyed by document id, in the store's
  own order. \<open>clock\<close> is the server time; every write is stamped with it and advances it,
  so that an unchanged clock means that nothing was written.
\<close>

record store =
  docs :: "(string \<times> document) list"
  clock :: nat

text \<open>
  Modelled from the spec: the document store client is an external SDK, it is not part of
  the repository. Sections 4.2 and 6 of the specification give the contract that the agent
  relies on: get, set, update and a filtered, limited stream, with a server-assigned
  timestamp in place of the sentinel value, an update that merges the given fields into the
  stored record, and an update of an absent id that fails with NotFound. Field names are
  top-level names of the record.
\<close>

definition resolve_timestamps :: "nat \<Rightarrow> document \<Rightarrow> document" where
  "resolve_timestamps t d = map (\<lambda>(k, v). (k, if v = SERVER_TIMESTAMP then VTime t else v)) d"

definition doc_get :: "store \<Rightarrow> string \<Rightarrow> document option" where
  "doc_get db post_id = map_of (docs db) post_id"

definition doc_set :: "store \<Rightarrow> string \<Rightarrow> document \<Rightarrow> store" where
  "doc_set db post_id d =
     db\<lparr>docs := AList.update post_id (resolve_timestamps (clock db) d) (docs db),
        clock := Suc (clock db)\<rparr>"

definition doc_update :: "store \<Rightarrow> string \<Rightarrow> document \<Rightarrow> exn + store" where
  "doc_update db post_id field_updates =
     (case doc_get db post_id of
        None \<Rightarrow> Inl (NotFound (''404 No document to update: '' @ post_id))
      | Some d \<Rightarrow>
          Inr (db\<lparr>docs := AList.update post_id
                             (AList.merge d (resolve_timestamps (clock db) field_updates)) (docs db),
                  clock := Suc (clock db)\<rparr>))"

definition where_limit_stream :: "store \<Rightarrow> string \<Rightarrow> fsvalue \<Rightarrow> nat \<Rightarrow> (string \<times> document) list" where
  "where_limit_stream db field v n = take n (filter (\<lambda>(i, d). map_of d field = Some v) (docs db))"

definition stream :: "store \<Rightarrow> (string \<times> document) list" where
  "stream db = docs db"

section \<open>The forum\<close>

text \<open>
  A submission as the forum client presents it. \<open>author\<close> is absent for a deleted account,
  \<open>removed_by_category\<close> is absent or names who removed the submission.
\<close>

record submission =
  submission_id :: string
  title :: string
  selftext :: string
  url :: string
  author :: "string option"
  created_utc :: real
  stickied :: bool
  removed_by_category :: "string option"
  is_self :: bool

text \<open>
  \<^verbatim>\<open>subreddit.new(limit=25)\<close> is a generator over the network: each step yields the next
  submission, newest first, or raises. A forum handle is the sequence of these steps; the
  generator stops after \<open>limit\<close> submissions, at the first exception, or at the end.
\<close>

datatype fetch_event = Yield submission | Raise exn

type_synonym forum = "fetch_event list"

fun new_listing :: "nat \<Rightarrow> forum \<Rightarrow> forum" where
  "new_listing 0 es = []"
| "new_listing (Suc n) [] = []"
| "new_listing (Suc n) (Yield s # es) = Yield s # new_listing n es"
| "new_listing (Suc n) (Raise e # es) = [Raise e]"

text \<open>\<^verbatim>\<open>str(submission.author)\<close>: a missing author becomes the string \<^verbatim>\<open>None\<close>.\<close>

fun str_author :: "string option \<Rightarrow> string" where
  "str_author None = ''None''"
| "str_author (Some a) = a"

section \<open>Ingestion\<close>

text \<open>
  The dictionary \<^verbatim>\<open>post_data\<close> that \<^verbatim>\<open>run_agent_cycle\<close> builds for each submission
  always has the same five keys, with these types.
\<close>

record post_data =
  title :: string
  body :: string
  url :: string
  author :: string
  created_utc :: real

definition new_post_data :: "post_data \<Rightarrow> document" where
  "new_post_data data =
     [(''title'', VStr (post_data.title data)),
      (''body'', VStr (post_data.body data)),
      (''url'', VStr (post_data.url data)),
      (''author'', VStr (post_data.author data)),
      (''created_utc'', VFloat (post_data.created_utc data)),
      (''status'', VStr (status_value NEW)),
      (''analysis_result'', VNull),
      (''deployment_id'', VNull),
      (''ingested_at'', SERVER_TIMESTAMP)]"

text \<open>
  \<^verbatim>\<open>fetch_or_initialize_post\<close>: the stored document when the id is present, otherwise a
  fresh document is written and the dictionary that was written is returned (it still
  holds the sentinel, the stored copy holds the server's time).
\<close>

definition fetch_or_initialize_post :: "store \<Rightarrow> string \<Rightarrow> post_data \<Rightarrow> store \<times> document" where
  "fetch_or_initialize_post db post_id data =
     (case doc_get db post_id of
        Some doc \<Rightarrow> (db, doc)
      | None \<Rightarrow> (doc_set db post_id (new_post_data data), new_post_data data))"

definition post_data_of :: "submission \<Rightarrow> post_data" where
  "post_data_of s =
     \<lparr>post_data.title = submission.title s,
      body = selftext s,
      url = submission.url s,
      author = str_author (submission.author s),
      created_utc = submission.created_utc s\<rparr>"

text \<open>
  The body of the \<^verbatim>\<open>for\<close> loop of \<^verbatim>\<open>run_agent_cycle\<close>, with the counter
  \<^verbatim>\<open>new_posts_found\<close> as accumulator. The loop ends with the counter, or with the
  exception that left it: one raised by the listing, or the \<^verbatim>\<open>KeyError\<close> of
  \<^verbatim>\<open>post_doc['status']\<close> on a stored document without that field. What was written
  before an exception stays written.
\<close>

fun ingest :: "store \<Rightarrow> nat \<Rightarrow> forum \<Rightarrow> store \<times> (exn + nat)" where
  "ingest db new_posts_found [] = (db, Inr new_posts_found)"
| "ingest db new_posts_found (Raise e # es) = (db, Inl e)"
| "ingest db new_posts_found (Yield s # es) =
     (if stickied s \<or> truthy (removed_by_category s) then ingest db new_posts_found es
      else if \<not> is_self s then ingest db new_posts_found es
      else
        (case fetch_or_initialize_post db (submission_id s) (post_data_of s) of
           (db', post_doc) \<Rightarrow>
             (case map_of post_doc ''status'' of
                None \<Rightarrow> (db', Inl (KeyError ''status''))
              | Some v \<Rightarrow>
                  if v = VStr (status_value NEW) then ingest db' (new_posts_found + 1) es
                  else ingest db' new_posts_found es)))"

text \<open>
  \<^verbatim>\<open>run_agent_cycle(db, reddit)\<close>. A handle is \<open>None\<close> when its initialisation failed;
  \<open>utcnow\<close> is \<^verbatim>\<open>datetime.utcnow().isoformat()\<close>, read when the result is built. The
  function returns the store as the cycle left it and the result dictionary.
\<close>

definition run_agent_cycle :: "store option \<Rightarrow> forum option \<Rightarrow> string \<Rightarrow> store option \<times> document" where
  "run_agent_cycle db reddit utcnow =
     (case (reddit, db) of
        (Some subreddit, Some d) \<Rightarrow>
          (let approved_count =
                 length (where_limit_stream d ''status'' (VStr (status_value APPROVED)) 5)
           in case ingest d 0 (new_listing 25 subreddit) of
                (d', Inr new_posts_found) \<Rightarrow>
                  (Some d',
                   [(''status'', VStr ''success''),
                    (''new_posts_found'', VInt (int new_posts_found)),
                    (''approved_posts_count'', VInt (int approved_count)),
                    (''timestamp'', VStr utcnow)])
              | (d', Inl e) \<Rightarrow>
                  (Some d', [(''status'', VStr ''error''), (''message'', VStr (str_exn e))]))
      | _ \<Rightarrow> (db, [(''status'', VStr ''error''), (''message'', VStr ''Connection failed'')]))"

section \<open>The HTTP surface\<close>

text \<open>
  Every request handler re-acquires its client handles. What the two initialisers return
  depends on the environment alone, so the world records their outcome: whether the store
  client can be built, and the forum handle if the credentials and the connection check
  pass. \<open>API_KEY\<close> is the environment variable of that name, \<open>utcnow\<close> the clock of
  the handler.
\<close>

record world =
  database :: store
  firestore_available :: bool
  reddit_client :: "forum option"
  API_KEY :: "string option"
  utcnow :: string

definition initialize_firestore :: "world \<Rightarrow> store option" where
  "initialize_firestore w = (if firestore_available w then Some (database w) else None)"

definition initialize_reddit :: "world \<Rightarrow> forum option" where
  "initialize_reddit w = reddit_client w"

text \<open>
  A request carries the \<^verbatim>\<open>X-API-Key\<close> header, if any, and the outcome of
  \<^verbatim>\<open>request.get_json()\<close>: the parsed body, or the exception raised for a body that
  is not JSON. A response is the value given to \<^verbatim>\<open>jsonify\<close> and the status code.
\<close>

record request =
  x_api_key :: "string option"
  get_json :: "exn + fsvalue"

type_synonym response = "fsvalue \<times> nat"

definition require_api_key ::
  "(request \<Rightarrow> world \<Rightarrow> world \<times> response) \<Rightarrow> request \<Rightarrow> world \<Rightarrow> world \<times> response" where
  "require_api_key f req w =
     (let api_key = x_api_key req; expected_key = API_KEY w
      in if \<not> truthy expected_key \<or> api_key \<noteq> expected_key
         then (w, (VMap [(''error'', VStr ''Unauthorized'')], 401))
         else f req w)"

definition health_check :: "request \<Rightarrow> world \<Rightarrow> world \<times> response" where
  "health_check req w =
     (w, (VMap [(''status'', VStr ''ok''),
                (''service'', VStr ''Reddit Authority Agent''),
                (''timestamp'', VStr (utcnow w))], 200))"

definition run_agent_body :: "request \<Rightarrow> world \<Rightarrow> world \<times> response" where
  "run_agent_body req w =
     (let db = initialize_firestore w; reddit = initialize_reddit w
      in case run_agent_cycle db reddit (utcnow w) of
           (db', result) \<Rightarrow>
             (let w' = (case db' of Some d \<Rightarrow> w\<lparr>database := d\<rparr> | None \<Rightarrow> w)
              in if map_of result ''status'' = Some (VStr ''error'')
                 then (w', (VMap result, 500))
                 else (w', (VMap result, 200))))"

definition run_agent :: "request \<Rightarrow> world \<Rightarrow> world \<times> response" where
  "run_agent = require_api_key run_agent_body"

definition get_posts_body :: "request \<Rightarrow> world \<Rightarrow> world \<times> response" where
  "get_posts_body req w =
     (case initialize_firestore w of
        None \<Rightarrow> (w, (VMap [(''error'', VStr ''Database connection failed'')], 500))
      | Some db \<Rightarrow>
          (let posts = map (\<lambda>(i, d). VMap (AList.update ''id'' (VStr i) d)) (stream db)
           in (w, (VMap [(''posts'', VList posts), (''count'', VInt (int (length posts)))], 200))))"

definition get_posts :: "request \<Rightarrow> world \<Rightarrow> world \<times> response" where
  "get_posts = require_api_key get_posts_body"

definition get_post_body :: "string \<Rightarrow> request \<Rightarrow> world \<Rightarrow> world \<times> response" where
  "get_post_body post_id req w =
     (case initialize_firestore w of
        None \<Rightarrow> (w, (VMap [(''error'', VStr ''Database connection failed'')], 500))
      | Some db \<Rightarrow>
          (case doc_get db post_id of
             None \<Rightarrow> (w, (VMap [(''error'', VStr ''Post not found'')], 404))
           | Some d \<Rightarrow> (w, (VMap (AList.update ''id'' (VStr post_id) d), 200))))"

definition get_post :: "string \<Rightarrow> request \<Rightarrow> world \<Rightarrow> world \<times> response" where
  "get_post post_id = require_api_key (get_post_body post_id)"

subsection \<open>The update endpoint\<close>

text \<open>
  The body of a PUT request is whatever JSON value the client sent. The three operations
  that \<^verbatim>\<open>update_post\<close> applies to it are defined on every value, as in Python:
  \<^verbatim>\<open>'status' in data\<close>, \<^verbatim>\<open>data['status']\<close> and the unpacking \<^verbatim>\<open>{**data, ...}\<close>.
  The wording of the interpreter's messages is indicative.
\<close>

fun type_name :: "fsvalue \<Rightarrow> string" where
  "type_name VNull = ''NoneType''"
| "type_name (VBool b) = ''bool''"
| "type_name (VInt i) = ''int''"
| "type_name (VFloat x) = ''float''"
| "type_name (VStr s) = ''str''"
| "type_name (VList xs) = ''list''"
| "type_name (VMap kvs) = ''dict''"
| "type_name (VTime t) = ''DatetimeWithNanoseconds''"
| "type_name SERVER_TIMESTAMP = ''Sentinel''"

definition quoted :: "string \<Rightarrow> string" where
  "quoted s = [CHR 0x27] @ s @ [CHR 0x27]"

fun py_contains :: "string \<Rightarrow> fsvalue \<Rightarrow> exn + bool" where
  "py_contains k (VMap kvs) = Inr (map_of kvs k \<noteq> None)"
| "py_contains k (VList xs) = Inr (VStr k \<in> set xs)"
| "py_contains k (VStr s) = Inr (sublist k s)"
| "py_contains k v = Inl (TypeError (''argument of type '' @ quoted (type_name v) @ '' is not iterable''))"

fun py_getitem :: "fsvalue \<Rightarrow> string \<Rightarrow> exn + fsvalue" where
  "py_getitem (VMap kvs) k = (case map_of kvs k of None \<Rightarrow> Inl (KeyError k) | Some v \<Rightarrow> Inr v)"
| "py_getitem (VList xs) k = Inl (TypeError ''list indices must be integers or slices, not str'')"
| "py_getitem (VStr s) k = Inl (TypeError ''string indices must be integers'')"
| "py_getitem v k = Inl (TypeError (quoted (type_name v) @ '' object is not subscriptable''))"

fun py_mapping :: "fsvalue \<Rightarrow> exn + document" where
  "py_mapping (VMap kvs) = Inr kvs"
| "py_mapping v = Inl (TypeError (quoted (type_name v) @ '' object is not a mapping''))"

definition valid_statuses :: "fsvalue list" where
  "valid_statuses = map (\<lambda>status. VStr (status_value status)) PostStatus_members"

fun join :: "string \<Rightarrow> string list \<Rightarrow> string" where
  "join sep [] = []"
| "join sep [x] = x"
| "join sep (x # y # ys) = x @ sep @ join sep (y # ys)"

definition invalid_status_message :: string where
  "invalid_status_message =
     ''Invalid status. Must be one of ['' @
     join '', '' (map (\<lambda>status. quoted (status_value status)) PostStatus_members) @ '']''"

text \<open>
  The \<^verbatim>\<open>try\<close> block of \<^verbatim>\<open>update_post\<close>: the validation of \<^verbatim>\<open>status\<close>, then the
  store update with the request's fields and the \<^verbatim>\<open>updated_at\<close> sentinel.
\<close>

definition update_post_try :: "string \<Rightarrow> request \<Rightarrow> store \<Rightarrow> exn + (store \<times> response)" where
  "update_post_try post_id req db =
     (case get_json req of
        Inl e \<Rightarrow> Inl e
      | Inr data \<Rightarrow>
          (case py_contains ''status'' data of
             Inl e \<Rightarrow> Inl e
           | Inr has_status \<Rightarrow>
               (case (if has_status
                      then (case py_getitem data ''status'' of
                              Inl e \<Rightarrow> Inl e
                            | Inr v \<Rightarrow> Inr (v \<notin> set valid_statuses))
                      else Inr False) of
                  Inl e \<Rightarrow> Inl e
                | Inr True \<Rightarrow> Inr (db, (VMap [(''error'', VStr invalid_status_message)], 400))
                | Inr False \<Rightarrow>
                    (case py_mapping data of
                       Inl e \<Rightarrow> Inl e
                     | Inr kvs \<Rightarrow>
                         (case doc_update db post_id
                                 (AList.update ''updated_at'' SERVER_TIMESTAMP kvs) of
                            Inl e \<Rightarrow> Inl e
                          | Inr db' \<Rightarrow>
                              Inr (db', (VMap [(''message'', VStr ''Post updated successfully''),
                                               (''id'', VStr post_id)], 200)))))))"

definition update_post_body :: "string \<Rightarrow> request \<Rightarrow> world \<Rightarrow> world \<times> response" where
  "update_post_body post_id req w =
     (case initialize_firestore w of
        None \<Rightarrow> (w, (VMap [(''error'', VStr ''Database connection failed'')], 500))
      | Some db \<Rightarrow>
          (case update_post_try post_id req db of
             Inl e \<Rightarrow> (w, (VMap [(''error'', VStr (str_exn e))], 500))
           | Inr (db', resp) \<Rightarrow> (w\<lparr>database := db'\<rparr>, resp)))"

definition update_post :: "string \<Rightarrow> request \<Rightarrow> world \<Rightarrow> world \<times> response" where
  "update_post post_id = require_api_key (update_post_body post_id)"

section \<open>The configuration endpoint\<close>

text \<open>
  \<^verbatim>\<open>get_config\<close> of \<^verbatim>\<open>src/api/config.py\<close>. The JSON reader \<^verbatim>\<open>json.loads\<close> and the
  writer \<^verbatim>\<open>jsonify\<close> belong to the libraries, so they are parameters: \<open>loads s\<close> is
  \<open>None\<close> where the reader raises \<^verbatim>\<open>JSONDecodeError\<close>, and \<open>jsonify v\<close> is the text
  of the response body for the value \<open>v\<close>. The argument is the environment variable
  \<^verbatim>\<open>FIREBASE_CONFIG_JSON\<close>; the result is the body and the status code.
\<close>

definition get_config ::
  "(string \<Rightarrow> fsvalue option) \<Rightarrow> (fsvalue \<Rightarrow> string) \<Rightarrow> string option \<Rightarrow> string \<times> nat" where
  "get_config loads jsonify firebase_config_json =
     (case (if truthy firebase_config_json then firebase_config_json else None) of
        None \<Rightarrow>
          (jsonify (VMap [(''error'',
             VStr ''Firebase configuration not found in environment variables.'')]), 500)
      | Some s \<Rightarrow>
          (case loads s of
             Some config \<Rightarrow> (jsonify config, 200)
           | None \<Rightarrow>
               (jsonify (VMap [(''error'',
                  VStr ''Firebase configuration environment variable is not valid JSON.'')]), 500)))"

section \<open>Sample data\<close>

text \<open>Concrete inputs on which the theorems below are evaluated.\<close>

definition empty_store :: store where
  "empty_store = \<lparr>docs = [], clock = 0\<rparr>"

definition sample_submission :: submission where
  "sample_submission =
     \<lparr>submission_id = ''abc'', title = ''Hiring testers'', selftext = ''Details inside'',
      url = ''https://example.org/abc'', author = None, created_utc = 1700000000,
      stickied = False, removed_by_category = None, is_self = True\<rparr>"

definition sample_document :: document where
  "sample_document =
     [(''title'', VStr ''Hiring testers''),
      (''body'', VStr ''Details inside''),
      (''url'', VStr ''https://example.org/abc''),
      (''author'', VStr ''None''),
      (''created_utc'', VFloat 1700000000),
      (''status'', VStr ''New''),
      (''analysis_result'', VNull),
      (''deployment_id'', VNull),
      (''ingested_at'', VTime 0)]"

definition sample_store :: store where
  "sample_store = \<lparr>docs = [(''abc'', sample_document)], clock = 1\<rparr>"

definition sample_world :: world where
  "sample_world =
     \<lparr>database = sample_store, firestore_available = True,
      reddit_client = Some [Yield sample_submission], API_KEY = Some ''secret'',
      utcnow = ''2024-01-01T00:00:00''\<rparr>"

definition blank_category_submission :: submission where
  "blank_category_submission = sample_submission\<lparr>removed_by_category := Some ''''\<rparr>"

definition stickied_submission :: submission where
  "stickied_submission = sample_submission\<lparr>stickied := True\<rparr>"

definition offline_world :: world where
  "offline_world = sample_world\<lparr>firestore_available := False\<rparr>"

definition bogus_status_request :: request where
  "bogus_status_request =
     \<lparr>x_api_key = Some ''secret'', get_json = Inr (VMap [(''status'', VStr ''Bogus'')])\<rparr>"

definition approve_request :: request where
  "approve_request =
     \<lparr>x_api_key = Some ''secret'', get_json = Inr (VMap [(''status'', VStr ''Approved'')])\<rparr>"

definition retitle_request :: request where
  "retitle_request =
     \<lparr>x_api_key = Some ''secret'', get_json = Inr (VMap [(''title'', VStr ''Changed'')])\<rparr>"

definition anonymous_request :: request where
  "anonymous_request = \<lparr>x_api_key = None, get_json = Inr (VMap [(''status'', VStr ''Approved'')])\<rparr>"

definition keyless_world :: world where
  "keyless_world = sample_world\<lparr>API_KEY := None\<rparr>"

definition blank_key_world :: world where
  "blank_key_world = sample_world\<lparr>API_KEY := Some ''''\<rparr>"

definition blank_key_request :: request where
  "blank_key_request = \<lparr>x_api_key = Some '''', get_json = Inr (VMap [(''status'', VStr ''Approved'')])\<rparr>"

lemma doc_get_doc_set:
  "doc_get (doc_set db i d) j = (if j = i then Some (resolve_timestamps (clock db) d) else doc_get db j)"
  by (simp add: doc_get_def doc_set_def update_conv')

lemma fetch_present:
  "doc_get db post_id = Some doc \<Longrightarrow> fetch_or_initialize_post db post_id data = (db, doc)"
  by (simp add: fetch_or_initialize_post_def)

lemma fetch_absent:
  "doc_get db post_id = None \<Longrightarrow>
   fetch_or_initialize_post db post_id data =
     (doc_set db post_id (new_post_data data), new_post_data data)"
  by (simp add: fetch_or_initialize_post_def)

lemma fetch_keeps_existing:
  "doc_get db j = Some d \<Longrightarrow> doc_get (fst (fetch_or_initialize_post db post_id data)) j = Some d"
  by (cases "doc_get db post_id") (auto simp: fetch_present fetch_absent doc_get_doc_set)

lemma fetch_distinct:
  "distinct (map fst (docs db)) \<Longrightarrow>
   distinct (map fst (docs (fst (fetch_or_initialize_post db post_id data))))"
  by (cases "doc_get db post_id") (auto simp: fetch_present fetch_absent doc_set_def distinct_update)

lemma fetch_creates_only_its_id:
  "doc_get db j = None \<Longrightarrow> doc_get (fst (fetch_or_initialize_post db post_id data)) j \<noteq> None \<Longrightarrow>
   j = post_id"
  by (cases "doc_get db post_id") (auto simp: fetch_present fetch_absent doc_get_doc_set split: if_splits)

lemma ingest_keeps_existing:
  "doc_get db j = Some d \<Longrightarrow> doc_get (fst (ingest db n es)) j = Some d"
proof (induction db n es rule: ingest.induct)
  case (3 db n s es)
  obtain db' post_doc where f: "fetch_or_initialize_post db (submission_id s) (post_data_of s) = (db', post_doc)"
    by (cases "fetch_or_initialize_post db (submission_id s) (post_data_of s)")
  from fetch_keeps_existing[OF "3.prems", of "submission_id s" "post_data_of s"] f
  have k: "doc_get db' j = Some d" by simp
  show ?case using 3 f k
    by (auto split: option.splits)
qed simp_all

lemma ingest_distinct:
  "distinct (map fst (docs db)) \<Longrightarrow> distinct (map fst (docs (fst (ingest db n es))))"
proof (induction db n es rule: ingest.induct)
  case (3 db n s es)
  obtain db' post_doc where f: "fetch_or_initialize_post db (submission_id s) (post_data_of s) = (db', post_doc)"
    by (cases "fetch_or_initialize_post db (submission_id s) (post_data_of s)")
  from fetch_distinct[OF "3.prems", of "submission_id s" "post_data_of s"] f
  have k: "distinct (map fst (docs db'))" by simp
  show ?case using 3 f k
    by (auto split: option.splits)
qed simp_all

lemma ingest_creates_only_filtered:
  "doc_get db j = None \<Longrightarrow> doc_get (fst (ingest db n es)) j \<noteq> None \<Longrightarrow>
   \<exists>s. Yield s \<in> set es \<and> submission_id s = j \<and> \<not> stickied s \<and>
       \<not> truthy (removed_by_category s) \<and> is_self s"
proof (induction db n es rule: ingest.induct)
  case (3 db n s es)
  obtain db' post_doc where f: "fetch_or_initialize_post db (submission_id s) (post_data_of s) = (db', post_doc)"
    by (cases "fetch_or_initialize_post db (submission_id s) (post_data_of s)")
  show ?case
  proof (cases "stickied s \<or> truthy (removed_by_category s) \<or> \<not> is_self s")
    case True
    then show ?thesis using 3 by (auto split: if_splits)
  next
    case False
    show ?thesis
    proof (cases "doc_get db' j")
      case None
      then show ?thesis using 3 f False by (auto split: option.splits if_splits)
    next
      case (Some a)
      with fetch_creates_only_its_id[OF "3.prems"(1), of "submission_id s" "post_data_of s"] f
      have "j = submission_id s" by simp
      then show ?thesis using False by auto
    qed
  qed
qed simp_all

lemma ingest_filter:
  "ingest db n (filter (\<lambda>e. case e of Yield s \<Rightarrow> \<not> stickied s \<and> \<not> truthy (removed_by_category s) \<and> is_self s
                                  | Raise x \<Rightarrow> True) es) = ingest db n es"
  by (induction db n es rule: ingest.induct) (auto split: option.splits prod.splits)

lemma new_listing_subset: "set (new_listing n es) \<subseteq> set es"
  by (induction n es rule: new_listing.induct) auto

lemma new_listing_numeral:
  "new_listing (numeral k) [] = []"
  "new_listing (numeral k) (Yield s # es) = Yield s # new_listing (pred_numeral k) es"
  "new_listing (numeral k) (Raise e # es) = [Raise e]"
  by (simp_all add: numeral_eq_Suc)

lemma run_agent_cycle_connected:
  "run_agent_cycle (Some d) (Some r) now =
     (case ingest d 0 (new_listing 25 r) of
        (d', Inr n) \<Rightarrow>
          (Some d',
           [(''status'', VStr ''success''),
            (''new_posts_found'', VInt (int n)),
            (''approved_posts_count'',
               VInt (int (length (where_limit_stream d ''status'' (VStr ''Approved'') 5)))),
            (''timestamp'', VStr now)])
      | (d', Inl e) \<Rightarrow>
          (Some d', [(''status'', VStr ''error''), (''message'', VStr (str_exn e))]))"
  by (simp add: run_agent_cycle_def)

lemma run_agent_cycle_store:
  "fst (run_agent_cycle (Some d) (Some r) now) = Some (fst (ingest d 0 (new_listing 25 r)))"
  by (simp add: run_agent_cycle_connected split: prod.splits sum.splits)

lemma run_agent_cycle_disconnected:
  "db = None \<or> reddit = None \<Longrightarrow>
   run_agent_cycle db reddit now =
     (db, [(''status'', VStr ''error''), (''message'', VStr ''Connection failed'')])"
  by (auto simp: run_agent_cycle_def split: option.splits)

lemmas cycle_eval =
  new_listing_numeral run_agent_cycle_def where_limit_stream_def fetch_or_initialize_post_def
  doc_get_def doc_set_def new_post_data_def post_data_of_def resolve_timestamps_def


lemma map_of_resolve_timestamps:
  "map_of (resolve_timestamps t d) k =
     map_option (\<lambda>v. if v = SERVER_TIMESTAMP then VTime t else v) (map_of d k)"
  by (simp add: resolve_timestamps_def map_of_map)

lemma map_of_merge:
  "map_of (AList.merge d p) k = (case map_of p k of Some v \<Rightarrow> Some v | None \<Rightarrow> map_of d k)"
  by (simp add: merge_conv' map_add_def)

lemma doc_update_absent:
  "doc_get db post_id = None \<Longrightarrow>
   doc_update db post_id fs = Inl (NotFound (''404 No document to update: '' @ post_id))"
  by (simp add: doc_update_def)

lemma doc_update_present:
  assumes "doc_update db post_id fs = Inr db'"
  shows "\<exists>d. doc_get db post_id = Some d \<and>
             (\<forall>j. doc_get db' j =
                    (if j = post_id then Some (AList.merge d (resolve_timestamps (clock db) fs))
                     else doc_get db j))"
  using assms
  by (auto simp: doc_update_def doc_get_def update_conv' split: option.splits)

lemma py_mapping_Inr: "py_mapping data = Inr kvs \<Longrightarrow> data = VMap kvs"
  by (cases data) auto

lemma update_post_try_cases:
  assumes "update_post_try post_id req db = Inr (db', resp)"
  shows "(db' = db \<and> resp = (VMap [(''error'', VStr invalid_status_message)], 400)) \<or>
         (\<exists>kvs. get_json req = Inr (VMap kvs) \<and>
                doc_update db post_id (AList.update ''updated_at'' SERVER_TIMESTAMP kvs) = Inr db' \<and>
                resp = (VMap [(''message'', VStr ''Post updated successfully''),
                              (''id'', VStr post_id)], 200))"
  using assms
  by (auto simp: update_post_try_def dest!: py_mapping_Inr split: sum.splits if_splits bool.splits)

lemma update_post_body_cases:
  "update_post_body post_id req w = (w, snd (update_post_body post_id req w)) \<and>
     snd (snd (update_post_body post_id req w)) \<noteq> 200 \<or>
   (\<exists>kvs db'. firestore_available w \<and> get_json req = Inr (VMap kvs) \<and>
       doc_update (database w) post_id (AList.update ''updated_at'' SERVER_TIMESTAMP kvs) = Inr db' \<and>
       update_post_body post_id req w =
         (w\<lparr>database := db'\<rparr>,
          (VMap [(''message'', VStr ''Post updated successfully''), (''id'', VStr post_id)], 200)))"
proof (cases "initialize_firestore w")
  case None
  then show ?thesis by (simp add: update_post_body_def)
next
  case (Some db)
  then have db: "firestore_available w" "db = database w"
    by (auto simp: initialize_firestore_def split: if_splits)
  show ?thesis
  proof (cases "update_post_try post_id req db")
    case (Inl e)
    with Some show ?thesis by (simp add: update_post_body_def)
  next
    case (Inr r)
    obtain db' resp where r: "r = (db', resp)" by (cases r)
    from update_post_try_cases[OF Inr[unfolded r]] Some Inr r db
    show ?thesis by (auto simp: update_post_body_def)
  qed
qed

lemma update_post_cases:
  "update_post post_id req w = (w, snd (update_post post_id req w)) \<and>
     snd (snd (update_post post_id req w)) \<noteq> 200 \<or>
   (\<exists>kvs db'. truthy (API_KEY w) \<and> x_api_key req = API_KEY w \<and>
       firestore_available w \<and> get_json req = Inr (VMap kvs) \<and>
       doc_update (database w) post_id (AList.update ''updated_at'' SERVER_TIMESTAMP kvs) = Inr db' \<and>
       update_post post_id req w =
         (w\<lparr>database := db'\<rparr>,
          (VMap [(''message'', VStr ''Post updated successfully''), (''id'', VStr post_id)], 200)))"
proof (cases "\<not> truthy (API_KEY w) \<or> x_api_key req \<noteq> API_KEY w")
  case True
  then show ?thesis by (auto simp: update_post_def require_api_key_def)
next
  case False
  then have "update_post post_id req w = update_post_body post_id req w"
    by (simp add: update_post_def require_api_key_def)
  with False update_post_body_cases[of post_id req w] show ?thesis by auto
qed

lemma unauthorized:
  "\<not> truthy (API_KEY w) \<or> x_api_key req \<noteq> API_KEY w \<Longrightarrow>
   require_api_key f req w = (w, (VMap [(''error'', VStr ''Unauthorized'')], 401))"
  by (simp add: require_api_key_def)

lemmas http_eval =
  Let_def update_post_def update_post_body_def update_post_try_def require_api_key_def
  initialize_firestore_def doc_update_def doc_get_def resolve_timestamps_def
  valid_statuses_def PostStatus_members_def

lemma update_post_keeps_field:
  assumes d: "doc_get (database w) j = Some d"
    and f: "field \<noteq> ''updated_at''"
    and n: "\<forall>kvs. get_json req = Inr (VMap kvs) \<longrightarrow> map_of kvs field = None"
  shows "\<exists>d'. doc_get (database (fst (update_post post_id req w))) j = Some d' \<and>
              map_of d' field = map_of d field"
  using update_post_cases[of post_id req w]
proof
  assume "update_post post_id req w = (w, snd (update_post post_id req w)) \<and>
          snd (snd (update_post post_id req w)) \<noteq> 200"
  then have "fst (update_post post_id req w) = fst (w, snd (update_post post_id req w))"
    by simp
  then have "fst (update_post post_id req w) = w"
    by simp
  with d show ?thesis by simp
next
  assume "\<exists>kvs db'. truthy (API_KEY w) \<and> x_api_key req = API_KEY w \<and>
       firestore_available w \<and> get_json req = Inr (VMap kvs) \<and>
       doc_update (database w) post_id (AList.update ''updated_at'' SERVER_TIMESTAMP kvs) = Inr db' \<and>
       update_post post_id req w =
         (w\<lparr>database := db'\<rparr>,
          (VMap [(''message'', VStr ''Post updated successfully''), (''id'', VStr post_id)], 200))"
  then obtain kvs db' where
    j: "get_json req = Inr (VMap kvs)" and
    u: "doc_update (database w) post_id (AList.update ''updated_at'' SERVER_TIMESTAMP kvs) = Inr db'" and
    r: "fst (update_post post_id req w) = w\<lparr>database := db'\<rparr>"
    by auto
  from n j have k: "map_of kvs field = None" by simp
  let ?p = "AList.update ''updated_at'' SERVER_TIMESTAMP kvs"
  from k f have p: "map_of ?p field = None"
    by (simp add: update_conv')
  from doc_update_present[OF u] obtain d0 where
    d0: "doc_get (database w) post_id = Some d0" and
    g: "\<And>i. doc_get db' i =
          (if i = post_id then Some (AList.merge d0 (resolve_timestamps (clock (database w)) ?p))
           else doc_get (database w) i)"
    by blast
  show ?thesis
  proof (cases "j = post_id")
    case True
    with d d0 have "d0 = d" by simp
    with True p show ?thesis
      by (simp add: r g map_of_merge map_of_resolve_timestamps)
  next
    case False
    with d show ?thesis by (simp add: r g)
  qed
qed

lemma run_agent_keeps_existing:
  assumes "doc_get (database w) j = Some d"
  shows "doc_get (database (fst (run_agent req w))) j = Some d"
proof (cases "\<not> truthy (API_KEY w) \<or> x_api_key req \<noteq> API_KEY w")
  case True
  then show ?thesis using assms by (simp add: run_agent_def unauthorized)
next
  case False
  then have e: "run_agent req w = run_agent_body req w"
    by (auto simp: run_agent_def require_api_key_def Let_def)
  show ?thesis
  proof (cases "firestore_available w \<and> reddit_client w \<noteq> None")
    case True
    then obtain r where r: "reddit_client w = Some r" by auto
    obtain d' res where i: "ingest (database w) 0 (new_listing 25 r) = (d', res)"
      by (cases "ingest (database w) 0 (new_listing 25 r)")
    from ingest_keeps_existing[OF assms, of 0 "new_listing 25 r"] i
    have k: "doc_get d' j = Some d" by simp
    from True r i k show ?thesis
      by (cases res)
         (simp_all add: e run_agent_body_def initialize_firestore_def initialize_reddit_def
            run_agent_cycle_connected Let_def)
  next
    case False
    then have "initialize_firestore w = None \<or> initialize_reddit w = None"
      by (auto simp: initialize_firestore_def initialize_reddit_def)
    from run_agent_cycle_disconnected[OF this, of "utcnow w"] assms
    show ?thesis
      by (auto simp: e run_agent_body_def Let_def initialize_firestore_def split: option.splits if_splits)
  qed
qed

lemma read_endpoints_keep_world:
  "fst (get_posts req w) = w" "fst (get_post post_id req w) = w" "fst (health_check req w) = w"
  by (auto simp: get_posts_def get_posts_body_def get_post_def get_post_body_def health_check_def
        require_api_key_def Let_def split: option.splits)

section \<open>The counter of new posts\<close>

text \<open>
  C1. The claim: \<^verbatim>\<open>new_posts_found\<close> counts the records created during the pass, a record
  that is already stored with status New is not counted again, and a second cycle over the
  same submissions reports 0. The code tests the status of the document that
  \<^verbatim>\<open>fetch_or_initialize_post\<close> returned, whether or not it was just created: the first
  cycle over one fresh self-post creates its record and reports 1, and the second cycle
  finds that record, writes nothing, and reports 1 again.
\<close>

theorem run_agent_cycle_counts_stored_new_again:
  "run_agent_cycle (Some empty_store) (Some [Yield sample_submission]) ''2024-01-01T00:00:00'' =
     (Some sample_store,
      [(''status'', VStr ''success''), (''new_posts_found'', VInt 1),
       (''approved_posts_count'', VInt 0), (''timestamp'', VStr ''2024-01-01T00:00:00'')]) \<and>
   run_agent_cycle (Some sample_store) (Some [Yield sample_submission]) ''2024-01-01T00:05:00'' =
     (Some sample_store,
      [(''status'', VStr ''success''), (''new_posts_found'', VInt 1),
       (''approved_posts_count'', VInt 0), (''timestamp'', VStr ''2024-01-01T00:05:00'')])"
  by (simp add: cycle_eval empty_store_def sample_submission_def sample_document_def sample_store_def)

section \<open>Get-or-create\<close>

text \<open>
  C2. \<^verbatim>\<open>fetch_or_initialize_post\<close> returns the stored document and leaves the store as it
  is (no write: the clock is unchanged too) when the id is present; when the id is absent
  it writes one fresh document, whose status is New, under that id. Either way every
  record that was stored before is stored unchanged afterwards, whatever data the second
  ingestion carries, and ids stay unique. The same holds for a whole cycle: it changes no
  stored record and keeps at most one record per id.
\<close>

theorem fetch_or_initialize_post_get_or_create:
  "(doc_get db post_id = Some doc \<longrightarrow>
      fetch_or_initialize_post db post_id data = (db, doc)) \<and>
   (doc_get db post_id = None \<longrightarrow>
      fetch_or_initialize_post db post_id data =
        (doc_set db post_id (new_post_data data), new_post_data data) \<and>
      map_of (new_post_data data) ''status'' = Some (VStr ''New'') \<and>
      (\<exists>stored. doc_get (fst (fetch_or_initialize_post db post_id data)) post_id = Some stored \<and>
         map_of stored ''status'' = Some (VStr ''New'') \<and>
         fetch_or_initialize_post (fst (fetch_or_initialize_post db post_id data)) post_id data' =
           (fst (fetch_or_initialize_post db post_id data), stored))) \<and>
   (\<forall>j d. doc_get db j = Some d \<longrightarrow>
      doc_get (fst (fetch_or_initialize_post db post_id data)) j = Some d \<and>
      (\<exists>db'. fst (run_agent_cycle (Some db) reddit now) = Some db' \<and> doc_get db' j = Some d)) \<and>
   (distinct (map fst (docs db)) \<longrightarrow>
      distinct (map fst (docs (fst (fetch_or_initialize_post db post_id data)))) \<and>
      (\<exists>db'. fst (run_agent_cycle (Some db) reddit now) = Some db' \<and>
         distinct (map fst (docs db'))))"
proof (intro conjI impI allI)
  assume "doc_get db post_id = Some doc"
  then show "fetch_or_initialize_post db post_id data = (db, doc)"
    by (rule fetch_present)
next
  assume a: "doc_get db post_id = None"
  show "fetch_or_initialize_post db post_id data =
          (doc_set db post_id (new_post_data data), new_post_data data)"
    by (rule fetch_absent[OF a])
  show n: "map_of (new_post_data data) ''status'' = Some (VStr ''New'')"
    by (simp add: new_post_data_def)
  let ?stored = "resolve_timestamps (clock db) (new_post_data data)"
  have g: "doc_get (fst (fetch_or_initialize_post db post_id data)) post_id = Some ?stored"
    by (simp add: fetch_absent[OF a] doc_get_doc_set)
  have s: "map_of ?stored ''status'' = Some (VStr ''New'')"
    by (simp add: new_post_data_def resolve_timestamps_def)
  from g s fetch_present[OF g]
  show "\<exists>stored. doc_get (fst (fetch_or_initialize_post db post_id data)) post_id = Some stored \<and>
         map_of stored ''status'' = Some (VStr ''New'') \<and>
         fetch_or_initialize_post (fst (fetch_or_initialize_post db post_id data)) post_id data' =
           (fst (fetch_or_initialize_post db post_id data), stored)"
    by blast
next
  fix j d
  assume a: "doc_get db j = Some d"
  show "doc_get (fst (fetch_or_initialize_post db post_id data)) j = Some d"
    by (rule fetch_keeps_existing[OF a])
  show "\<exists>db'. fst (run_agent_cycle (Some db) reddit now) = Some db' \<and> doc_get db' j = Some d"
  proof (cases reddit)
    case None
    then show ?thesis using a by (simp add: run_agent_cycle_disconnected)
  next
    case (Some r)
    then show ?thesis using ingest_keeps_existing[OF a] by (simp add: run_agent_cycle_store)
  qed
next
  assume a: "distinct (map fst (docs db))"
  show "distinct (map fst (docs (fst (fetch_or_initialize_post db post_id data))))"
    by (rule fetch_distinct[OF a])
  show "\<exists>db'. fst (run_agent_cycle (Some db) reddit now) = Some db' \<and> distinct (map fst (docs db'))"
  proof (cases reddit)
    case None
    then show ?thesis using a by (simp add: run_agent_cycle_disconnected)
  next
    case (Some r)
    then show ?thesis using ingest_distinct[OF a] by (simp add: run_agent_cycle_store)
  qed
qed

theorem fetch_or_initialize_post_get_or_create_witness:
  "doc_get sample_store ''abc'' = Some sample_document \<and>
   distinct (map fst (docs sample_store)) \<and>
   fetch_or_initialize_post sample_store ''abc'' (post_data_of sample_submission) =
     (sample_store, sample_document) \<and>
   doc_get empty_store ''abc'' = None \<and>
   fetch_or_initialize_post empty_store ''abc'' (post_data_of sample_submission) =
     (sample_store, new_post_data (post_data_of sample_submission)) \<and>
   fst (run_agent_cycle (Some sample_store) (Some [Yield sample_submission]) ''2024-01-01T00:05:00'') =
     Some sample_store"
proof -
  have present: "doc_get sample_store ''abc'' = Some sample_document"
    by (simp add: doc_get_def empty_store_def sample_submission_def sample_document_def sample_store_def)
  have absent: "doc_get empty_store ''abc'' = None"
    by (simp add: doc_get_def empty_store_def sample_submission_def sample_document_def sample_store_def)
  have uniq: "distinct (map fst (docs sample_store))"
    by (simp add: empty_store_def sample_submission_def sample_document_def sample_store_def)
  have written: "doc_set empty_store ''abc'' (new_post_data (post_data_of sample_submission)) = sample_store"
    by (simp add: cycle_eval empty_store_def sample_submission_def sample_document_def sample_store_def)
  have cycle: "fst (run_agent_cycle (Some sample_store) (Some [Yield sample_submission]) ''2024-01-01T00:05:00'') =
     Some sample_store"
    by (simp add: cycle_eval empty_store_def sample_submission_def sample_document_def sample_store_def)
  from present absent uniq written cycle
    fetch_or_initialize_post_get_or_create
      [of sample_store "''abc''" sample_document "post_data_of sample_submission"
          "post_data_of sample_submission" "Some [Yield sample_submission]" "''2024-01-01T00:05:00''"]
    fetch_or_initialize_post_get_or_create
      [of empty_store "''abc''" sample_document "post_data_of sample_submission"
          "post_data_of sample_submission" "Some [Yield sample_submission]" "''2024-01-01T00:05:00''"]
  show ?thesis by simp
qed

section \<open>Filtering\<close>

text \<open>
  C3, as stated: no record is created for a submission that is stickied, or whose
  \<^verbatim>\<open>removed_by_category\<close> is non-null, or that is not a self-post. The code tests
  \<^verbatim>\<open>submission.removed_by_category\<close> for truth, so a category that is present but empty
  does not stop the ingestion: the record of such a submission is created.
\<close>

theorem run_agent_cycle_ingests_blank_category:
  "removed_by_category blank_category_submission = Some '''' \<and>
   doc_get empty_store (submission_id blank_category_submission) = None \<and>
   fst (run_agent_cycle (Some empty_store) (Some [Yield blank_category_submission])
          ''2024-01-01T00:00:00'') = Some sample_store \<and>
   doc_get sample_store (submission_id blank_category_submission) = Some sample_document"
  by (simp add: cycle_eval empty_store_def sample_submission_def sample_document_def sample_store_def
      blank_category_submission_def stickied_submission_def)

text \<open>
  C3, amended: when every submission of the listing with a given id is stickied, or has a
  truthy (present and non-empty) \<^verbatim>\<open>removed_by_category\<close>, or is not a self-post, the cycle
  leaves that id as it found it, so it creates no record for it. Submissions that fail one
  of the three tests have no effect on the loop at all: the loop over the listing is the
  loop over those that pass.
\<close>

theorem run_agent_cycle_skips_filtered:
  assumes "\<forall>s. Yield s \<in> set listing \<and> submission_id s = i \<longrightarrow>
             stickied s \<or> truthy (removed_by_category s) \<or> \<not> is_self s"
  shows "(\<exists>db'. fst (run_agent_cycle (Some db) (Some listing) now) = Some db' \<and>
            doc_get db' i = doc_get db i) \<and>
         ingest db n listing =
           ingest db n (filter (\<lambda>e. case e of
                                   Yield s \<Rightarrow> \<not> stickied s \<and> \<not> truthy (removed_by_category s) \<and> is_self s
                                 | Raise x \<Rightarrow> True) listing)"
proof
  let ?db' = "fst (ingest db 0 (new_listing 25 listing))"
  have "doc_get ?db' i = doc_get db i"
  proof (cases "doc_get db i")
    case (Some d)
    then show ?thesis by (simp add: ingest_keeps_existing)
  next
    case None
    have "doc_get ?db' i = None"
    proof (rule ccontr)
      assume "doc_get ?db' i \<noteq> None"
      from ingest_creates_only_filtered[OF None this]
      obtain s where "Yield s \<in> set (new_listing 25 listing)" "submission_id s = i"
        "\<not> stickied s" "\<not> truthy (removed_by_category s)" "is_self s"
        by blast
      with new_listing_subset[of 25 listing] assms show False by blast
    qed
    with None show ?thesis by simp
  qed
  then show "\<exists>db'. fst (run_agent_cycle (Some db) (Some listing) now) = Some db' \<and>
               doc_get db' i = doc_get db i"
    by (simp add: run_agent_cycle_store)
next
  show "ingest db n listing =
          ingest db n (filter (\<lambda>e. case e of
                                  Yield s \<Rightarrow> \<not> stickied s \<and> \<not> truthy (removed_by_category s) \<and> is_self s
                                | Raise x \<Rightarrow> True) listing)"
    by (simp add: ingest_filter)
qed

theorem run_agent_cycle_skips_filtered_witness:
  "stickied stickied_submission \<and>
   fst (run_agent_cycle (Some empty_store) (Some [Yield stickied_submission])
          ''2024-01-01T00:00:00'') = Some empty_store \<and>
   doc_get empty_store ''abc'' = None"
proof -
  have h: "\<forall>s. Yield s \<in> set [Yield stickied_submission] \<and> submission_id s = ''abc'' \<longrightarrow>
             stickied s \<or> truthy (removed_by_category s) \<or> \<not> is_self s"
    by (simp add: empty_store_def sample_submission_def sample_document_def sample_store_def
      blank_category_submission_def stickied_submission_def)
  have e: "fst (run_agent_cycle (Some empty_store) (Some [Yield stickied_submission])
                  ''2024-01-01T00:00:00'') = Some empty_store"
    by (simp add: cycle_eval empty_store_def sample_submission_def sample_document_def sample_store_def
      blank_category_submission_def stickied_submission_def)
  from run_agent_cycle_skips_filtered[OF h, of empty_store "''2024-01-01T00:00:00''" 0] e
  show ?thesis by (simp add: empty_store_def sample_submission_def sample_document_def sample_store_def
      blank_category_submission_def stickied_submission_def doc_get_def)
qed

section \<open>The result of a cycle\<close>

text \<open>
  C4. \<^verbatim>\<open>run_agent_cycle\<close> always returns a result dictionary. Without a store handle or
  without a forum handle the result is the error \<^verbatim>\<open>Connection failed\<close> and nothing is
  touched. With both handles, an exception that leaves the loop (raised by the listing, or
  the \<^verbatim>\<open>KeyError\<close> of a stored document without status) becomes the error result with
  the exception's message, and a loop that runs to its end gives the success result with
  the counter, the number of approved posts (at most five are fetched) and the timestamp.
\<close>

theorem run_agent_cycle_result:
  "(db = None \<or> reddit = None \<longrightarrow>
      run_agent_cycle db reddit now =
        (db, [(''status'', VStr ''error''), (''message'', VStr ''Connection failed'')])) \<and>
   (\<forall>d r. db = Some d \<and> reddit = Some r \<longrightarrow>
      (\<exists>d'. fst (run_agent_cycle db reddit now) = Some d' \<and>
         ((\<exists>e. ingest d 0 (new_listing 25 r) = (d', Inl e) \<and>
               snd (run_agent_cycle db reddit now) =
                 [(''status'', VStr ''error''), (''message'', VStr (str_exn e))]) \<or>
          (\<exists>new_posts_found approved_count.
               ingest d 0 (new_listing 25 r) = (d', Inr new_posts_found) \<and>
               approved_count = length (filter (\<lambda>(i, doc). map_of doc ''status'' = Some (VStr ''Approved'')) (docs d)) \<and>
               snd (run_agent_cycle db reddit now) =
                 [(''status'', VStr ''success''),
                  (''new_posts_found'', VInt (int new_posts_found)),
                  (''approved_posts_count'', VInt (int (min 5 approved_count))),
                  (''timestamp'', VStr now)]))))"
proof (intro conjI impI allI)
  assume "db = None \<or> reddit = None"
  then show "run_agent_cycle db reddit now =
        (db, [(''status'', VStr ''error''), (''message'', VStr ''Connection failed'')])"
    by (rule run_agent_cycle_disconnected)
next
  fix d r
  assume a: "db = Some d \<and> reddit = Some r"
  obtain d' res where i: "ingest d 0 (new_listing 25 r) = (d', res)"
    by (cases "ingest d 0 (new_listing 25 r)")
  show "\<exists>d'. fst (run_agent_cycle db reddit now) = Some d' \<and>
         ((\<exists>e. ingest d 0 (new_listing 25 r) = (d', Inl e) \<and>
               snd (run_agent_cycle db reddit now) =
                 [(''status'', VStr ''error''), (''message'', VStr (str_exn e))]) \<or>
          (\<exists>new_posts_found approved_count.
               ingest d 0 (new_listing 25 r) = (d', Inr new_posts_found) \<and>
               approved_count = length (filter (\<lambda>(i, doc). map_of doc ''status'' = Some (VStr ''Approved'')) (docs d)) \<and>
               snd (run_agent_cycle db reddit now) =
                 [(''status'', VStr ''success''),
                  (''new_posts_found'', VInt (int new_posts_found)),
                  (''approved_posts_count'', VInt (int (min 5 approved_count))),
                  (''timestamp'', VStr now)]))"
  proof (cases res)
    case (Inl e)
    with a i show ?thesis by (simp add: run_agent_cycle_connected)
  next
    case (Inr n)
    with a i show ?thesis
      by (simp add: run_agent_cycle_connected where_limit_stream_def min_def)
  qed
qed

theorem run_agent_cycle_result_witness:
  "run_agent_cycle None (Some [Yield sample_submission]) ''2024-01-01T00:00:00'' =
     (None, [(''status'', VStr ''error''), (''message'', VStr ''Connection failed'')]) \<and>
   run_agent_cycle (Some sample_store)
       (Some [Yield sample_submission, Raise (ExternalError ''received 503 HTTP response'')])
       ''2024-01-01T00:00:00'' =
     (Some sample_store,
      [(''status'', VStr ''error''), (''message'', VStr ''received 503 HTTP response'')]) \<and>
   run_agent_cycle (Some empty_store) (Some [Yield sample_submission]) ''2024-01-01T00:00:00'' =
     (Some sample_store,
      [(''status'', VStr ''success''), (''new_posts_found'', VInt 1),
       (''approved_posts_count'', VInt 0), (''timestamp'', VStr ''2024-01-01T00:00:00'')])"
proof -
  have raised: "ingest sample_store 0
                  (new_listing 25 [Yield sample_submission,
                                   Raise (ExternalError ''received 503 HTTP response'')]) =
                (sample_store, Inl (ExternalError ''received 503 HTTP response''))"
    by (simp add: cycle_eval empty_store_def sample_submission_def sample_document_def sample_store_def)
  have finished: "ingest empty_store 0 (new_listing 25 [Yield sample_submission]) =
                (sample_store, Inr 1)"
    by (simp add: cycle_eval empty_store_def sample_submission_def sample_document_def sample_store_def)
  have none: "docs empty_store = []"
    by (simp add: empty_store_def sample_submission_def sample_document_def sample_store_def)
  from raised finished none
    run_agent_cycle_result
      [of None "Some [Yield sample_submission]" "''2024-01-01T00:00:00''"]
    run_agent_cycle_result
      [of "Some sample_store"
          "Some [Yield sample_submission, Raise (ExternalError ''received 503 HTTP response'')]"
          "''2024-01-01T00:00:00''"]
    run_agent_cycle_result
      [of "Some empty_store" "Some [Yield sample_submission]" "''2024-01-01T00:00:00''"]
  show ?thesis
    by (auto simp: prod_eq_iff)
qed

section \<open>Validation of the status\<close>

text \<open>
  C5, as stated: every PUT request whose body has a \<^verbatim>\<open>status\<close> outside the five values
  is answered with 400. The handler first builds the store client and answers 500 when
  that fails, before it looks at the body: a request with the right key and the status
  \<^verbatim>\<open>Bogus\<close> gets 500 when the store is unreachable.
\<close>

theorem update_post_bogus_status_offline:
  "x_api_key bogus_status_request = API_KEY offline_world \<and>
   get_json bogus_status_request = Inr (VMap [(''status'', VStr ''Bogus'')]) \<and>
   update_post ''abc'' bogus_status_request offline_world =
     (offline_world, (VMap [(''error'', VStr ''Database connection failed'')], 500))"
  by (simp add: http_eval bogus_status_request_def offline_world_def sample_world_def
      sample_store_def sample_document_def)

text \<open>
  C5, amended: a PUT request whose body is an object with a \<^verbatim>\<open>status\<close> outside
  New, AnalysisPending, Approved, Rejected and Deployed never writes to the store (the
  world, the store's clock included, is returned as it was); and when the request carries
  the configured key and the store client is available, the answer is 400 with the
  message that lists the valid values.
\<close>

theorem update_post_invalid_status:
  assumes "get_json req = Inr (VMap kvs)"
    and "map_of kvs ''status'' = Some v"
    and "v \<notin> VStr ` {''New'', ''AnalysisPending'', ''Approved'', ''Rejected'', ''Deployed''}"
  shows "fst (update_post post_id req w) = w \<and>
         snd (snd (update_post post_id req w)) \<noteq> 200 \<and>
         (truthy (API_KEY w) \<and> x_api_key req = API_KEY w \<and> firestore_available w \<longrightarrow>
            update_post post_id req w =
              (w, (VMap [(''error'', VStr invalid_status_message)], 400)))"
proof -
  from assms(3) have invalid: "v \<notin> set valid_statuses"
    by (auto simp: valid_statuses_def PostStatus_members_def)
  have attempt: "update_post_try post_id req db =
               Inr (db, (VMap [(''error'', VStr invalid_status_message)], 400))" for db
    using assms(1,2) invalid by (simp add: update_post_try_def)
  have body: "update_post_body post_id req w =
                (if firestore_available w
                 then (w, (VMap [(''error'', VStr invalid_status_message)], 400))
                 else (w, (VMap [(''error'', VStr ''Database connection failed'')], 500)))"
    by (simp add: update_post_body_def initialize_firestore_def attempt)
  show ?thesis
    by (auto simp: update_post_def require_api_key_def Let_def body)
qed

theorem update_post_invalid_status_witness:
  "get_json bogus_status_request = Inr (VMap [(''status'', VStr ''Bogus'')]) \<and>
   truthy (API_KEY sample_world) \<and> x_api_key bogus_status_request = API_KEY sample_world \<and>
   firestore_available sample_world \<and>
   update_post ''abc'' bogus_status_request sample_world =
     (sample_world, (VMap [(''error'', VStr invalid_status_message)], 400)) \<and>
   invalid_status_message =
     ''Invalid status. Must be one of ['' @ quoted ''New'' @ '', '' @ quoted ''AnalysisPending'' @
     '', '' @ quoted ''Approved'' @ '', '' @ quoted ''Rejected'' @ '', '' @ quoted ''Deployed'' @ '']''"
proof -
  have b: "get_json bogus_status_request = Inr (VMap [(''status'', VStr ''Bogus'')])"
    by (simp add: bogus_status_request_def offline_world_def sample_world_def
      sample_store_def sample_document_def)
  have s: "map_of [(''status'', VStr ''Bogus'')] ''status'' = Some (VStr ''Bogus'')"
    by simp
  have o: "VStr ''Bogus'' \<notin> VStr ` {''New'', ''AnalysisPending'', ''Approved'', ''Rejected'', ''Deployed''}"
    by simp
  have k: "truthy (API_KEY sample_world) \<and> x_api_key bogus_status_request = API_KEY sample_world \<and>
           firestore_available sample_world"
    by (simp add: bogus_status_request_def offline_world_def sample_world_def
      sample_store_def sample_document_def)
  have m: "invalid_status_message =
     ''Invalid status. Must be one of ['' @ quoted ''New'' @ '', '' @ quoted ''AnalysisPending'' @
     '', '' @ quoted ''Approved'' @ '', '' @ quoted ''Rejected'' @ '', '' @ quoted ''Deployed'' @ '']''"
    by (simp add: invalid_status_message_def PostStatus_members_def)
  from update_post_invalid_status[OF b s o, of "''abc''" sample_world] b k m
  show ?thesis by simp
qed

section \<open>Updates\<close>

text \<open>
  C6. An update that succeeds (answer 200) was addressed to a stored record and carried an
  object. Afterwards the record's \<^verbatim>\<open>updated_at\<close> is the server's time of the write,
  every field that the payload given to the store does not name (the request's fields and
  \<^verbatim>\<open>updated_at\<close>) has the value it had, every field that the request names has the
  request's value, and the other records are untouched. An update addressed to an id that
  is not stored fails in the store with NotFound: the handler does not answer 200 and the
  store is left as it was, with no document under that id.
\<close>

theorem update_post_partial_merge:
  "(update_post post_id req w = (w', (answer, 200)) \<longrightarrow>
      (\<exists>d kvs d'.
          get_json req = Inr (VMap kvs) \<and>
          doc_get (database w) post_id = Some d \<and>
          doc_get (database w') post_id = Some d' \<and>
          map_of d' ''updated_at'' = Some (VTime (clock (database w))) \<and>
          (\<forall>k. map_of (AList.update ''updated_at'' SERVER_TIMESTAMP kvs) k = None \<longrightarrow>
                 map_of d' k = map_of d k) \<and>
          (\<forall>k v. k \<noteq> ''updated_at'' \<and> map_of kvs k = Some v \<longrightarrow>
                 map_of d' k = Some (if v = SERVER_TIMESTAMP then VTime (clock (database w)) else v)) \<and>
          (\<forall>j. j \<noteq> post_id \<longrightarrow> doc_get (database w') j = doc_get (database w) j))) \<and>
   (doc_get (database w) post_id = None \<longrightarrow>
      fst (update_post post_id req w) = w \<and>
      snd (snd (update_post post_id req w)) \<noteq> 200 \<and>
      (\<forall>field_updates. doc_update (database w) post_id field_updates =
          Inl (NotFound (''404 No document to update: '' @ post_id))))"
proof (intro conjI impI)
  assume ok: "update_post post_id req w = (w', (answer, 200))"
  with update_post_cases[of post_id req w]
  obtain kvs db' where
    j: "get_json req = Inr (VMap kvs)" and
    u: "doc_update (database w) post_id (AList.update ''updated_at'' SERVER_TIMESTAMP kvs) = Inr db'" and
    w': "w' = w\<lparr>database := db'\<rparr>"
    by auto
  let ?p = "AList.update ''updated_at'' SERVER_TIMESTAMP kvs"
  let ?t = "clock (database w)"
  from doc_update_present[OF u] obtain d where
    d: "doc_get (database w) post_id = Some d" and
    g: "\<And>j. doc_get db' j =
          (if j = post_id then Some (AList.merge d (resolve_timestamps ?t ?p)) else doc_get (database w) j)"
    by blast
  let ?d' = "AList.merge d (resolve_timestamps ?t ?p)"
  have f: "map_of ?d' k =
             (case map_of ?p k of
                Some v \<Rightarrow> Some (if v = SERVER_TIMESTAMP then VTime ?t else v)
              | None \<Rightarrow> map_of d k)" for k
    by (simp add: map_of_merge map_of_resolve_timestamps split: option.splits)
  have p: "map_of ?p k = (if k = ''updated_at'' then Some SERVER_TIMESTAMP else map_of kvs k)" for k
    by (simp add: update_conv')
  have 1: "doc_get (database w') post_id = Some ?d'"
    by (simp add: w' g)
  have 2: "map_of ?d' ''updated_at'' = Some (VTime ?t)"
    by (simp add: f p)
  have 3: "\<forall>k. map_of ?p k = None \<longrightarrow> map_of ?d' k = map_of d k"
    by (simp add: f)
  have 4: "\<forall>k v. k \<noteq> ''updated_at'' \<and> map_of kvs k = Some v \<longrightarrow>
             map_of ?d' k = Some (if v = SERVER_TIMESTAMP then VTime ?t else v)"
    by (simp add: f p)
  have 5: "\<forall>j. j \<noteq> post_id \<longrightarrow> doc_get (database w') j = doc_get (database w) j"
    by (simp add: w' g)
  show "\<exists>d kvs d'.
          get_json req = Inr (VMap kvs) \<and>
          doc_get (database w) post_id = Some d \<and>
          doc_get (database w') post_id = Some d' \<and>
          map_of d' ''updated_at'' = Some (VTime (clock (database w))) \<and>
          (\<forall>k. map_of (AList.update ''updated_at'' SERVER_TIMESTAMP kvs) k = None \<longrightarrow>
                 map_of d' k = map_of d k) \<and>
          (\<forall>k v. k \<noteq> ''updated_at'' \<and> map_of kvs k = Some v \<longrightarrow>
                 map_of d' k = Some (if v = SERVER_TIMESTAMP then VTime (clock (database w)) else v)) \<and>
          (\<forall>j. j \<noteq> post_id \<longrightarrow> doc_get (database w') j = doc_get (database w) j)"
    by (rule exI[of _ d], rule exI[of _ kvs], rule exI[of _ ?d']) (intro conjI j d 1 2 3 4 5)
next
  assume a: "doc_get (database w) post_id = None"
  have c: "update_post post_id req w = (w, snd (update_post post_id req w)) \<and>
           snd (snd (update_post post_id req w)) \<noteq> 200"
    using update_post_cases[of post_id req w]
  proof
    assume "update_post post_id req w = (w, snd (update_post post_id req w)) \<and>
            snd (snd (update_post post_id req w)) \<noteq> 200"
    then show ?thesis .
  next
    assume "\<exists>kvs db'. truthy (API_KEY w) \<and> x_api_key req = API_KEY w \<and>
       firestore_available w \<and> get_json req = Inr (VMap kvs) \<and>
       doc_update (database w) post_id (AList.update ''updated_at'' SERVER_TIMESTAMP kvs) = Inr db' \<and>
       update_post post_id req w =
         (w\<lparr>database := db'\<rparr>,
          (VMap [(''message'', VStr ''Post updated successfully''), (''id'', VStr post_id)], 200))"
    then obtain kvs db' where
      "doc_update (database w) post_id (AList.update ''updated_at'' SERVER_TIMESTAMP kvs) = Inr db'"
      by blast
    then show ?thesis by (simp add: doc_update_absent[OF a])
  qed
  from c have "fst (update_post post_id req w) = fst (w, snd (update_post post_id req w))"
    by simp
  then show "fst (update_post post_id req w) = w"
    by simp
  from c show "snd (snd (update_post post_id req w)) \<noteq> 200"
    by simp
  show "\<forall>field_updates. doc_update (database w) post_id field_updates =
          Inl (NotFound (''404 No document to update: '' @ post_id))"
    by (simp add: doc_update_absent[OF a])
qed

theorem update_post_partial_merge_witness:
  "update_post ''abc'' approve_request sample_world =
     (sample_world\<lparr>database :=
        \<lparr>docs = [(''abc'',
                  [(''title'', VStr ''Hiring testers''),
                   (''body'', VStr ''Details inside''),
                   (''url'', VStr ''https://example.org/abc''),
                   (''author'', VStr ''None''),
                   (''created_utc'', VFloat 1700000000),
                   (''status'', VStr ''Approved''),
                   (''analysis_result'', VNull),
                   (''deployment_id'', VNull),
                   (''ingested_at'', VTime 0),
                   (''updated_at'', VTime 1)])],
         clock = 2\<rparr>\<rparr>,
      (VMap [(''message'', VStr ''Post updated successfully''), (''id'', VStr ''abc'')], 200)) \<and>
   doc_get (database sample_world) ''xyz'' = None \<and>
   update_post ''xyz'' approve_request sample_world =
     (sample_world, (VMap [(''error'', VStr ''404 No document to update: xyz'')], 500))"
proof -
  let ?w' = "sample_world\<lparr>database :=
        \<lparr>docs = [(''abc'',
                  [(''title'', VStr ''Hiring testers''),
                   (''body'', VStr ''Details inside''),
                   (''url'', VStr ''https://example.org/abc''),
                   (''author'', VStr ''None''),
                   (''created_utc'', VFloat 1700000000),
                   (''status'', VStr ''Approved''),
                   (''analysis_result'', VNull),
                   (''deployment_id'', VNull),
                   (''ingested_at'', VTime 0),
                   (''updated_at'', VTime 1)])],
         clock = 2\<rparr>\<rparr>"
  let ?answer = "VMap [(''message'', VStr ''Post updated successfully''), (''id'', VStr ''abc'')]"
  have ok: "update_post ''abc'' approve_request sample_world = (?w', (?answer, 200))"
    by (simp add: http_eval approve_request_def sample_world_def sample_store_def sample_document_def)
  have absent: "doc_get (database sample_world) ''xyz'' = None"
    by (simp add: doc_get_def approve_request_def sample_world_def sample_store_def sample_document_def)
  have nf: "update_post ''xyz'' approve_request sample_world =
     (sample_world, (VMap [(''error'', VStr ''404 No document to update: xyz'')], 500))"
    by (simp add: http_eval approve_request_def sample_world_def sample_store_def sample_document_def)
  from update_post_partial_merge[of "''abc''" approve_request sample_world ?w' ?answer]
       update_post_partial_merge[of "''xyz''" approve_request sample_world ?w' ?answer]
       ok absent nf
  show ?thesis by simp
qed

section \<open>The captured fields\<close>

text \<open>
  C7, as stated: nothing changes title, body, url or author after the record is created.
  The update endpoint merges whatever fields the request names, these four included: a PUT
  with the body \<^verbatim>\<open>{"title": "Changed"}\<close> replaces the stored title.
\<close>

theorem update_post_changes_title:
  "doc_get (database sample_world) ''abc'' = Some sample_document \<and>
   map_of sample_document ''title'' = Some (VStr ''Hiring testers'') \<and>
   update_post ''abc'' retitle_request sample_world =
     (sample_world\<lparr>database :=
        \<lparr>docs = [(''abc'',
                  [(''title'', VStr ''Changed''),
                   (''body'', VStr ''Details inside''),
                   (''url'', VStr ''https://example.org/abc''),
                   (''author'', VStr ''None''),
                   (''created_utc'', VFloat 1700000000),
                   (''status'', VStr ''New''),
                   (''analysis_result'', VNull),
                   (''deployment_id'', VNull),
                   (''ingested_at'', VTime 0),
                   (''updated_at'', VTime 1)])],
         clock = 2\<rparr>\<rparr>,
      (VMap [(''message'', VStr ''Post updated successfully''), (''id'', VStr ''abc'')], 200))"
  by (simp add: http_eval retitle_request_def approve_request_def sample_world_def sample_store_def
      sample_document_def empty_store_def sample_submission_def)

text \<open>
  C7, amended: title, body, url and author are captured from the submission when the record
  is created (a missing author as the string \<^verbatim>\<open>None\<close>). Afterwards the ingestion cycle,
  run directly or through its endpoint, and the read endpoints change no stored record,
  and the update endpoint leaves each of the four fields as it was unless the request's
  body is an object that names that field.
\<close>

theorem captured_fields_change_only_by_named_update:
  "(doc_get db (submission_id s) = None \<longrightarrow>
      (\<exists>created. doc_get (fst (fetch_or_initialize_post db (submission_id s) (post_data_of s)))
                    (submission_id s) = Some created \<and>
         map_of created ''title'' = Some (VStr (submission.title s)) \<and>
         map_of created ''body'' = Some (VStr (selftext s)) \<and>
         map_of created ''url'' = Some (VStr (submission.url s)) \<and>
         map_of created ''author'' = Some (VStr (str_author (submission.author s))))) \<and>
   (\<forall>j d. doc_get (database w) j = Some d \<longrightarrow>
      (\<exists>db'. fst (run_agent_cycle (Some (database w)) reddit now) = Some db' \<and>
             doc_get db' j = Some d) \<and>
      doc_get (database (fst (run_agent req w))) j = Some d \<and>
      doc_get (database (fst (get_posts req w))) j = Some d \<and>
      doc_get (database (fst (get_post post_id req w))) j = Some d \<and>
      doc_get (database (fst (health_check req w))) j = Some d \<and>
      (\<forall>field \<in> {''title'', ''body'', ''url'', ''author''}.
         (\<forall>kvs. get_json req = Inr (VMap kvs) \<longrightarrow> map_of kvs field = None) \<longrightarrow>
         (\<exists>d'. doc_get (database (fst (update_post post_id req w))) j = Some d' \<and>
               map_of d' field = map_of d field)))"
proof (intro conjI impI allI ballI)
  assume a: "doc_get db (submission_id s) = None"
  let ?created = "resolve_timestamps (clock db) (new_post_data (post_data_of s))"
  have g: "doc_get (fst (fetch_or_initialize_post db (submission_id s) (post_data_of s)))
             (submission_id s) = Some ?created"
    by (simp add: fetch_absent[OF a] doc_get_doc_set)
  have f: "map_of ?created ''title'' = Some (VStr (submission.title s)) \<and>
           map_of ?created ''body'' = Some (VStr (selftext s)) \<and>
           map_of ?created ''url'' = Some (VStr (submission.url s)) \<and>
           map_of ?created ''author'' = Some (VStr (str_author (submission.author s)))"
    by (simp add: new_post_data_def post_data_of_def resolve_timestamps_def)
  from g f
  show "\<exists>created. doc_get (fst (fetch_or_initialize_post db (submission_id s) (post_data_of s)))
                    (submission_id s) = Some created \<and>
         map_of created ''title'' = Some (VStr (submission.title s)) \<and>
         map_of created ''body'' = Some (VStr (selftext s)) \<and>
         map_of created ''url'' = Some (VStr (submission.url s)) \<and>
         map_of created ''author'' = Some (VStr (str_author (submission.author s)))"
    by (rule_tac x = ?created in exI) simp
next
  fix j d
  assume a: "doc_get (database w) j = Some d"
  show "\<exists>db'. fst (run_agent_cycle (Some (database w)) reddit now) = Some db' \<and>
             doc_get db' j = Some d"
  proof (cases reddit)
    case None
    then show ?thesis using a by (simp add: run_agent_cycle_disconnected)
  next
    case (Some r)
    then show ?thesis using ingest_keeps_existing[OF a] by (simp add: run_agent_cycle_store)
  qed
  show "doc_get (database (fst (run_agent req w))) j = Some d"
    by (rule run_agent_keeps_existing[OF a])
  show "doc_get (database (fst (get_posts req w))) j = Some d"
    by (simp add: read_endpoints_keep_world a)
  show "doc_get (database (fst (get_post post_id req w))) j = Some d"
    by (simp add: read_endpoints_keep_world a)
  show "doc_get (database (fst (health_check req w))) j = Some d"
    by (simp add: read_endpoints_keep_world a)
next
  fix j d field
  assume a: "doc_get (database w) j = Some d"
    and f: "field \<in> {''title'', ''body'', ''url'', ''author''}"
    and n: "\<forall>kvs. get_json req = Inr (VMap kvs) \<longrightarrow> map_of kvs field = None"
  from f have "field \<noteq> ''updated_at''" by auto
  from update_post_keeps_field[OF a this n]
  show "\<exists>d'. doc_get (database (fst (update_post post_id req w))) j = Some d' \<and>
               map_of d' field = map_of d field" .
qed

theorem captured_fields_change_only_by_named_update_witness:
  "doc_get empty_store (submission_id sample_submission) = None \<and>
   doc_get (database sample_world) ''abc'' = Some sample_document \<and>
   get_json approve_request = Inr (VMap [(''status'', VStr ''Approved'')]) \<and>
   (\<exists>d'. doc_get (database (fst (update_post ''abc'' approve_request sample_world))) ''abc'' = Some d' \<and>
         map_of d' ''title'' = Some (VStr ''Hiring testers'') \<and>
         map_of d' ''status'' = Some (VStr ''Approved'')) \<and>
   doc_get (database (fst (run_agent approve_request sample_world))) ''abc'' = Some sample_document"
proof -
  have absent: "doc_get empty_store (submission_id sample_submission) = None"
    by (simp add: doc_get_def retitle_request_def approve_request_def sample_world_def sample_store_def
      sample_document_def empty_store_def sample_submission_def)
  have present: "doc_get (database sample_world) ''abc'' = Some sample_document"
    by (simp add: doc_get_def retitle_request_def approve_request_def sample_world_def sample_store_def
      sample_document_def empty_store_def sample_submission_def)
  have body: "get_json approve_request = Inr (VMap [(''status'', VStr ''Approved'')])"
    by (simp add: retitle_request_def approve_request_def sample_world_def sample_store_def
      sample_document_def empty_store_def sample_submission_def)
  have unnamed: "\<forall>kvs. get_json approve_request = Inr (VMap kvs) \<longrightarrow> map_of kvs ''title'' = None"
    by (simp add: retitle_request_def approve_request_def sample_world_def sample_store_def
      sample_document_def empty_store_def sample_submission_def)
  have title: "map_of sample_document ''title'' = Some (VStr ''Hiring testers'')"
    by (simp add: retitle_request_def approve_request_def sample_world_def sample_store_def
      sample_document_def empty_store_def sample_submission_def)
  have status: "\<And>d'. doc_get (database (fst (update_post ''abc'' approve_request sample_world))) ''abc'' = Some d'
                  \<Longrightarrow> map_of d' ''status'' = Some (VStr ''Approved'')"
    by (simp add: http_eval retitle_request_def approve_request_def sample_world_def sample_store_def
      sample_document_def empty_store_def sample_submission_def)
  from captured_fields_change_only_by_named_update
         [of empty_store sample_submission sample_world "Some [Yield sample_submission]"
             "''2024-01-01T00:00:00''" approve_request "''abc''"]
       present unnamed
  have "(\<exists>d'. doc_get (database (fst (update_post ''abc'' approve_request sample_world))) ''abc'' = Some d' \<and>
               map_of d' ''title'' = map_of sample_document ''title'') \<and>
        doc_get (database (fst (run_agent approve_request sample_world))) ''abc'' = Some sample_document"
    by blast
  with absent present body title status show ?thesis by auto
qed

section \<open>The API key\<close>

text \<open>
  C8. A request to a protected endpoint (run-agent, the list of posts, one post, the update
  of a post) whose \<^verbatim>\<open>X-API-Key\<close> header is absent or differs from the configured key is
  answered 401 with the body \<^verbatim>\<open>{"error": "Unauthorized"}\<close>. The decorated function is
  not called, whatever it is, so neither the store nor the forum is reached and the world
  is as it was.
\<close>

theorem require_api_key_rejects_mismatch:
  assumes "x_api_key req = None \<or> x_api_key req \<noteq> API_KEY w"
  shows "run_agent req w = (w, (VMap [(''error'', VStr ''Unauthorized'')], 401)) \<and>
         get_posts req w = (w, (VMap [(''error'', VStr ''Unauthorized'')], 401)) \<and>
         get_post post_id req w = (w, (VMap [(''error'', VStr ''Unauthorized'')], 401)) \<and>
         update_post post_id req w = (w, (VMap [(''error'', VStr ''Unauthorized'')], 401)) \<and>
         require_api_key f req w = (w, (VMap [(''error'', VStr ''Unauthorized'')], 401))"
proof -
  from assms have "\<not> truthy (API_KEY w) \<or> x_api_key req \<noteq> API_KEY w"
    by (cases "API_KEY w") auto
  then show ?thesis
    by (simp add: run_agent_def get_posts_def get_post_def update_post_def unauthorized)
qed

theorem require_api_key_rejects_mismatch_witness:
  "x_api_key anonymous_request = None \<and>
   run_agent anonymous_request sample_world =
     (sample_world, (VMap [(''error'', VStr ''Unauthorized'')], 401)) \<and>
   update_post ''abc'' anonymous_request sample_world =
     (sample_world, (VMap [(''error'', VStr ''Unauthorized'')], 401)) \<and>
   x_api_key blank_key_request \<noteq> API_KEY sample_world \<and>
   get_posts blank_key_request sample_world =
     (sample_world, (VMap [(''error'', VStr ''Unauthorized'')], 401))"
proof -
  have a: "x_api_key anonymous_request = None \<or> x_api_key anonymous_request \<noteq> API_KEY sample_world"
    by (simp add: anonymous_request_def blank_key_request_def sample_world_def)
  have b: "x_api_key blank_key_request = None \<or> x_api_key blank_key_request \<noteq> API_KEY sample_world"
    by (simp add: anonymous_request_def blank_key_request_def sample_world_def)
  from require_api_key_rejects_mismatch[OF a, of "''abc''" run_agent_body]
       require_api_key_rejects_mismatch[OF b, of "''abc''" run_agent_body]
  show ?thesis by (simp add: anonymous_request_def blank_key_request_def sample_world_def)
qed

text \<open>
  C10. When \<^verbatim>\<open>API_KEY\<close> is unset or empty, every request to every protected endpoint is
  answered 401, whatever header it carries: an empty header that equals the empty
  configured value is rejected too.
\<close>

theorem require_api_key_fails_closed:
  assumes "API_KEY w = None \<or> API_KEY w = Some ''''"
  shows "run_agent req w = (w, (VMap [(''error'', VStr ''Unauthorized'')], 401)) \<and>
         get_posts req w = (w, (VMap [(''error'', VStr ''Unauthorized'')], 401)) \<and>
         get_post post_id req w = (w, (VMap [(''error'', VStr ''Unauthorized'')], 401)) \<and>
         update_post post_id req w = (w, (VMap [(''error'', VStr ''Unauthorized'')], 401))"
proof -
  from assms have "\<not> truthy (API_KEY w) \<or> x_api_key req \<noteq> API_KEY w"
    by auto
  then show ?thesis
    by (simp add: run_agent_def get_posts_def get_post_def update_post_def unauthorized)
qed

theorem require_api_key_fails_closed_witness:
  "API_KEY blank_key_world = Some '''' \<and> x_api_key blank_key_request = API_KEY blank_key_world \<and>
   update_post ''abc'' blank_key_request blank_key_world =
     (blank_key_world, (VMap [(''error'', VStr ''Unauthorized'')], 401)) \<and>
   API_KEY keyless_world = None \<and>
   run_agent anonymous_request keyless_world =
     (keyless_world, (VMap [(''error'', VStr ''Unauthorized'')], 401))"
proof -
  have a: "API_KEY blank_key_world = None \<or> API_KEY blank_key_world = Some ''''"
    by (simp add: anonymous_request_def blank_key_request_def keyless_world_def blank_key_world_def
      sample_world_def)
  have b: "API_KEY keyless_world = None \<or> API_KEY keyless_world = Some ''''"
    by (simp add: anonymous_request_def blank_key_request_def keyless_world_def blank_key_world_def
      sample_world_def)
  from require_api_key_fails_closed[OF a, of blank_key_request "''abc''"]
       require_api_key_fails_closed[OF b, of anonymous_request "''abc''"]
  show ?thesis by (simp add: anonymous_request_def blank_key_request_def keyless_world_def blank_key_world_def
      sample_world_def)
qed

section \<open>The configuration endpoint, checked\<close>

text \<open>
  C9, as stated: a valid configuration is re-served verbatim. The handler parses the text
  and serialises the parsed value again, so the body depends on the value alone. The JSON
  reader takes the texts \<^verbatim>\<open>{}\<close> and \<^verbatim>\<open> {}\<close> (with a leading blank) for the same
  empty object; there is no writer with which both would come back as they went in.
\<close>

theorem get_config_not_verbatim:
  "\<not> (\<exists>loads jsonify.
         loads ''{}'' = Some (VMap []) \<and> loads '' {}'' = Some (VMap []) \<and>
         fst (get_config loads jsonify (Some ''{}'')) = ''{}'' \<and>
         fst (get_config loads jsonify (Some '' {}'')) = '' {}'')"
proof
  assume "\<exists>loads jsonify.
         loads ''{}'' = Some (VMap []) \<and> loads '' {}'' = Some (VMap []) \<and>
         fst (get_config loads jsonify (Some ''{}'')) = ''{}'' \<and>
         fst (get_config loads jsonify (Some '' {}'')) = '' {}''"
  then obtain loads :: "string \<Rightarrow> fsvalue option" and jsonify :: "fsvalue \<Rightarrow> string" where
    a: "loads ''{}'' = Some (VMap [])" and b: "loads '' {}'' = Some (VMap [])" and
    c: "fst (get_config loads jsonify (Some ''{}'')) = ''{}''" and
    d: "fst (get_config loads jsonify (Some '' {}'')) = '' {}''"
    by blast
  from a c have "jsonify (VMap []) = ''{}''"
    by (simp add: get_config_def)
  moreover from b d have "jsonify (VMap []) = '' {}''"
    by (simp add: get_config_def)
  ultimately show False by simp
qed

text \<open>
  C9, amended: GET /config answers 500 with an error body exactly when the variable is
  missing, empty, or rejected by the JSON reader; otherwise it answers 200 and the body is
  the serialisation of the parsed value. With a writer whose output the reader reads back
  as the same value, the body denotes the same JSON value as the variable, though not
  necessarily the same text.
\<close>

theorem get_config_serves_parsed_value:
  "(snd (get_config loads jsonify env) = 500 \<longleftrightarrow>
      env = None \<or> env = Some [] \<or> (\<exists>s. env = Some s \<and> loads s = None)) \<and>
   (env = None \<or> env = Some [] \<longrightarrow>
      get_config loads jsonify env =
        (jsonify (VMap [(''error'',
           VStr ''Firebase configuration not found in environment variables.'')]), 500)) \<and>
   (\<forall>s. env = Some s \<and> s \<noteq> [] \<and> loads s = None \<longrightarrow>
      get_config loads jsonify env =
        (jsonify (VMap [(''error'',
           VStr ''Firebase configuration environment variable is not valid JSON.'')]), 500)) \<and>
   (\<forall>s v. env = Some s \<and> s \<noteq> [] \<and> loads s = Some v \<longrightarrow>
      get_config loads jsonify env = (jsonify v, 200) \<and>
      (loads (jsonify v) = Some v \<longrightarrow> loads (fst (get_config loads jsonify env)) = loads s))"
proof (cases env)
  case None
  then show ?thesis by (simp add: get_config_def)
next
  case (Some s)
  show ?thesis
  proof (cases "s = []")
    case True
    with Some show ?thesis by (simp add: get_config_def)
  next
    case False
    with Some show ?thesis
      by (cases "loads s") (simp_all add: get_config_def)
  qed
qed

theorem get_config_serves_parsed_value_witness:
  "\<forall>jsonify.
     get_config [''{}'' \<mapsto> VMap []] jsonify None =
       (jsonify (VMap [(''error'',
          VStr ''Firebase configuration not found in environment variables.'')]), 500) \<and>
     get_config [''{}'' \<mapsto> VMap []] jsonify (Some ''{'') =
       (jsonify (VMap [(''error'',
          VStr ''Firebase configuration environment variable is not valid JSON.'')]), 500) \<and>
     get_config [''{}'' \<mapsto> VMap []] jsonify (Some ''{}'') = (jsonify (VMap []), 200)"
proof
  fix jsonify :: "fsvalue \<Rightarrow> string"
  let ?loads = "[''{}'' \<mapsto> VMap []]"
  have bad: "?loads ''{'' = None" by simp
  have good: "?loads ''{}'' = Some (VMap [])" by simp
  from bad good
       get_config_serves_parsed_value[of ?loads jsonify None]
       get_config_serves_parsed_value[of ?loads jsonify "Some ''{''"]
       get_config_serves_parsed_value[of ?loads jsonify "Some ''{}''"]
  show "get_config ?loads jsonify None =
       (jsonify (VMap [(''error'',
          VStr ''Firebase configuration not found in environment variables.'')]), 500) \<and>
     get_config ?loads jsonify (Some ''{'') =
       (jsonify (VMap [(''error'',
          VStr ''Firebase configuration environment variable is not valid JSON.'')]), 500) \<and>
     get_config ?loads jsonify (Some ''{}'') = (jsonify (VMap []), 200)"
    by simp
qed

end
